theory Spec2Isabelle
  imports Main "HOL-Library.Word"
begin

unbundle bit_operations_syntax

section \<open>The capability mask \<open>Hasher::IMPL\<close>\<close>

text \<open>
  \<open>hasher.cpp\<close> includes \<open>hasher.hpp\<close>, which declares the class \<open>Hasher\<close>, the scoped
  enumeration \<open>IMPL\<close> with its operators \<open>|\<close>, \<open>&\<close> and \<open>!\<close>, the function pointer type
  \<open>SHA256_hasher\<close> and \<open>constants::BYTES_PER_CHUNK\<close>. That header is not among the
  sources, so the enumerators are a parameter of the model: a record with one field per
  enumerator that \<open>hasher.cpp\<close> names. An \<open>IMPL\<close> value is a machine integer whose
  width is left open.
\<close>

type_synonym 'w IMPL = "'w word"

record 'impl IMPL_enum =
  NONE :: 'impl
  SSE :: 'impl
  AVX :: 'impl
  AVX2 :: 'impl
  SHA :: 'impl

text \<open>
  Modelled from the spec: the operators of \<open>hasher.hpp\<close> on \<open>IMPL\<close> are missing. The spec
  calls the capability set a bitmask with bitwise OR and AND, so \<open>a | b\<close> and \<open>a & b\<close>
  are the bitwise operations of the underlying integer, and \<open>!a\<close> holds when no bit of
  \<open>a\<close> is set.
\<close>

definition IMPL_or :: "'w::len IMPL \<Rightarrow> 'w IMPL \<Rightarrow> 'w IMPL" where
  "IMPL_or a b = a OR b"

definition IMPL_and :: "'w::len IMPL \<Rightarrow> 'w IMPL \<Rightarrow> 'w IMPL" where
  "IMPL_and a b = a AND b"

definition IMPL_not :: "'w::len IMPL \<Rightarrow> bool" where
  "IMPL_not a = (a = 0)"

text \<open>
  Modelled from the spec: the enumerators are a bitmask of mutually non-exclusive flags
  with \<open>NONE\<close> the identity. \<open>NONE\<close> is the empty mask, every flag has a bit, and no two
  flags share one. (The \<open>switch\<close> of the constructor compiles only if the four flags
  are pairwise different.)
\<close>

definition IMPL_bitmask :: "'w::len IMPL IMPL_enum \<Rightarrow> bool" where
  "IMPL_bitmask E =
     (NONE E = 0 \<and>
      SSE E \<noteq> 0 \<and> AVX E \<noteq> 0 \<and> AVX2 E \<noteq> 0 \<and> SHA E \<noteq> 0 \<and>
      SSE E AND AVX E = 0 \<and> SSE E AND AVX2 E = 0 \<and> SSE E AND SHA E = 0 \<and>
      AVX E AND AVX2 E = 0 \<and> AVX E AND SHA E = 0 \<and> AVX2 E AND SHA E = 0)"

text \<open>One such enumeration, with the flags on the four lowest bits of a 32-bit integer.\<close>

definition IMPL_low_bits :: "32 IMPL IMPL_enum" where
  "IMPL_low_bits = \<lparr>NONE = 0, SSE = 1, AVX = 2, AVX2 = 4, SHA = 8\<rparr>"

section \<open>The hardware query of \<open><cpuid.h>\<close>\<close>

text \<open>
  \<open>implemented\<close> reads the processor through \<open>__get_cpuid_count\<close> and \<open>__get_cpuid\<close>
  of the compiler's \<open>cpuid.h\<close>. Both ask \<open>__get_cpuid_max\<close> for the highest supported
  leaf first; when the processor has no \<open>cpuid\<close> instruction or the leaf is beyond that
  maximum they return 0 and store nothing through the four pointers. Otherwise they
  execute \<open>cpuid\<close>, store \<open>eax\<close>, \<open>ebx\<close>, \<open>ecx\<close>, \<open>edx\<close> and return 1.

  A processor is what its \<open>cpuid\<close> instruction answers for a leaf and a subleaf, and
  whether it has the instruction at all.
\<close>

type_synonym u32 = "32 word"

record regs =
  eax :: u32
  ebx :: u32
  ecx :: u32
  edx :: u32

record cpu =
  has_cpuid :: bool
  cpuid :: "u32 \<Rightarrow> u32 \<Rightarrow> regs"

definition get_cpuid_max :: "cpu \<Rightarrow> u32 \<Rightarrow> u32" where
  "get_cpuid_max hw ext = (if has_cpuid hw then eax (cpuid hw ext 0) else 0)"

text \<open>The result is the return value and the four variables after the call.\<close>

definition get_cpuid_count :: "cpu \<Rightarrow> u32 \<Rightarrow> u32 \<Rightarrow> regs \<Rightarrow> int \<times> regs" where
  "get_cpuid_count hw leaf subleaf r =
     (let ext = leaf AND 0x80000000;
          maxlevel = get_cpuid_max hw ext
      in if maxlevel = 0 \<or> maxlevel < leaf then (0, r)
         else (1, cpuid hw leaf subleaf))"

text \<open>
  \<open>__get_cpuid\<close> names no subleaf. The model asks for subleaf 0; leaf 1, the only leaf
  it is called with here, has no subleaves.
\<close>

definition get_cpuid :: "cpu \<Rightarrow> u32 \<Rightarrow> regs \<Rightarrow> int \<times> regs" where
  "get_cpuid hw leaf r =
     (let ext = leaf AND 0x80000000;
          maxlevel = get_cpuid_max hw ext
      in if maxlevel = 0 \<or> maxlevel < leaf then (0, r)
         else (1, cpuid hw leaf 0))"

text \<open>The feature bits of \<open>cpuid.h\<close>: leaf 7 \<open>ebx\<close>, and leaf 1 \<open>ecx\<close>.\<close>

definition bit_SHA :: u32 where "bit_SHA = push_bit 29 1"
definition bit_AVX2 :: u32 where "bit_AVX2 = push_bit 5 1"
definition bit_AVX :: u32 where "bit_AVX = push_bit 28 1"
definition bit_SSE3 :: u32 where "bit_SSE3 = push_bit 0 1"

definition CPUID_LEAF :: u32 where "CPUID_LEAF = 7"

section \<open>\<open>Hasher::implemented\<close>\<close>

text \<open>
  The locals \<open>a, b, c, d\<close> are declared without an initialiser and the return values of
  both queries are dropped. What the four variables hold before the first query is
  therefore an input of the model (\<open>r0\<close>), and the second query starts from what the
  first one left.
\<close>

definition implemented :: "'w::len IMPL IMPL_enum \<Rightarrow> cpu \<Rightarrow> regs \<Rightarrow> 'w IMPL" where
  "implemented E hw r0 =
     (let ret = NONE E;
          r1 = snd (get_cpuid_count hw CPUID_LEAF 0 r0);
          ret = (if ebx r1 AND bit_SHA \<noteq> 0 then IMPL_or ret (SHA E) else ret);
          ret = (if ebx r1 AND bit_AVX2 \<noteq> 0 then IMPL_or ret (AVX2 E) else ret);
          r2 = snd (get_cpuid hw 1 r1);
          ret = (if ecx r2 AND bit_AVX \<noteq> 0 then IMPL_or ret (AVX E) else ret);
          ret = (if ecx r2 AND bit_SSE3 \<noteq> 0 then IMPL_or ret (SSE E) else ret)
      in ret)"

section \<open>\<open>Hasher::best_sha256_implementation\<close>\<close>

text \<open>
  A \<open>SHA256_hasher\<close> is a pointer to one of four functions: the three kernels declared
  in \<open>hasher.h\<close> and the static member \<open>sha256_sse\<close>.
\<close>

datatype SHA256_hasher =
  ptr_sha256_shani | ptr_sha256_8_avx2 | ptr_sha256_4_avx | ptr_sha256_sse

text \<open>
  The body of \<open>best_sha256_implementation\<close> after \<open>auto impl = implemented();\<close>, as a
  function of \<open>impl\<close>.
\<close>

definition best_sha256_for :: "'w::len IMPL IMPL_enum \<Rightarrow> 'w IMPL \<Rightarrow> SHA256_hasher" where
  "best_sha256_for E impl =
     (if \<not> IMPL_not (IMPL_and impl (SHA E)) then ptr_sha256_shani
      else if \<not> IMPL_not (IMPL_and impl (AVX2 E)) then ptr_sha256_8_avx2
      else if \<not> IMPL_not (IMPL_and impl (AVX E)) then ptr_sha256_4_avx
      else ptr_sha256_sse)"

definition best_sha256_implementation ::
  "'w::len IMPL IMPL_enum \<Rightarrow> cpu \<Rightarrow> regs \<Rightarrow> SHA256_hasher" where
  "best_sha256_implementation E hw r0 = best_sha256_for E (implemented E hw r0)"

section \<open>The constructor \<open>Hasher::Hasher\<close>\<close>

text \<open>
  The object has one data member that \<open>hasher.cpp\<close> writes, \<open>_hash_64b_blocks\<close>. Before
  the constructor body runs it holds nothing (\<open>None\<close>).
\<close>

record Hasher =
  hash_64b_blocks :: "SHA256_hasher option"

definition unbound :: Hasher where
  "unbound = \<lparr>hash_64b_blocks = None\<rparr>"

text \<open>
  The \<open>switch\<close> compares \<open>impl\<close> with the four enumerators in the order of its \<open>case\<close>
  labels; every other value takes the \<open>default\<close> label.
\<close>

definition Hasher :: "'w::len IMPL IMPL_enum \<Rightarrow> cpu \<Rightarrow> regs \<Rightarrow> 'w IMPL \<Rightarrow> Hasher" where
  "Hasher E hw r0 impl =
     (if impl = SHA E then unbound\<lparr>hash_64b_blocks := Some ptr_sha256_shani\<rparr>
      else if impl = AVX2 E then unbound\<lparr>hash_64b_blocks := Some ptr_sha256_8_avx2\<rparr>
      else if impl = AVX E then unbound\<lparr>hash_64b_blocks := Some ptr_sha256_4_avx\<rparr>
      else if impl = SSE E then unbound\<lparr>hash_64b_blocks := Some ptr_sha256_sse\<rparr>
      else unbound\<lparr>hash_64b_blocks := Some (best_sha256_implementation E hw r0)\<rparr>)"

section \<open>\<open>Hasher::sha256_sse\<close>\<close>

text \<open>
  Memory is a store of bytes by address. The two pointers of \<open>sha256_sse\<close> are addresses
  into the same store, so the model covers overlapping buffers too. Addresses are
  natural numbers: the model does not wrap a pointer around the end of the address space.
\<close>

type_synonym byte = "8 word"
type_synonym addr = nat
type_synonym mem = "addr \<Rightarrow> byte"

text \<open>
  Modelled from the spec: \<open>constants::BYTES_PER_CHUNK\<close> of \<open>hasher.hpp\<close> is missing. The
  spec has 32-byte values, 64 bytes of input and 32 bytes of output for each block.
\<close>

definition BYTES_PER_CHUNK :: nat where
  "BYTES_PER_CHUNK = 32"

text \<open>
  Modelled from the spec: the single-block kernel \<open>sha256_1_avx\<close> is only declared
  (\<open>extern "C"\<close>); its body is not among the sources. By the backend contract of the spec
  it reads the 64 bytes at \<open>input\<close> as two concatenated 32-byte values and writes their
  32-byte digest at \<open>output\<close>, and writes nothing else. The digest itself is a parameter
  \<open>H\<close>: \<open>H block j\<close> is byte \<open>j\<close> of the digest of the 64-byte \<open>block\<close>.
\<close>

type_synonym digest = "byte list \<Rightarrow> nat \<Rightarrow> byte"

definition sha256_1_avx :: "digest \<Rightarrow> mem \<Rightarrow> addr \<Rightarrow> addr \<Rightarrow> mem" where
  "sha256_1_avx H m output input =
     (\<lambda>a. if output \<le> a \<and> a < output + BYTES_PER_CHUNK
          then H (map m [input ..< input + 2 * BYTES_PER_CHUNK]) (a - output)
          else m a)"

text \<open>
  The loop of \<open>sha256_sse\<close>. \<open>blocks\<close> is a \<open>std::size_t\<close>, 64 bits wide like the
  \<open>uint64_t\<close> block count of the kernels in \<open>hasher.h\<close> that share its pointer type.
  The result is the store when the function returns.
\<close>

function sha256_sse :: "digest \<Rightarrow> mem \<Rightarrow> addr \<Rightarrow> addr \<Rightarrow> 64 word \<Rightarrow> mem" where
  "sha256_sse H m output input blocks =
     (if blocks \<noteq> 0
      then sha256_sse H (sha256_1_avx H m output input)
             (output + BYTES_PER_CHUNK) (input + 2 * BYTES_PER_CHUNK) (blocks - 1)
      else m)"
  by pat_completeness auto
termination
  by (relation "measure (\<lambda>(H, m, output, input, blocks). unat blocks)")
     (auto simp: unat_minus_one unat_gt_0)

declare sha256_sse.simps [simp del]

section \<open>Calls through the bound pointer\<close>

text \<open>
  A call through a \<open>SHA256_hasher\<close> runs the function it points to. For \<open>&sha256_sse\<close>
  that is the loop above. The three kernels of \<open>hasher.h\<close> are external assembly; what
  each does to memory is a parameter \<open>K\<close>.
\<close>

type_synonym kernel = "mem \<Rightarrow> addr \<Rightarrow> addr \<Rightarrow> 64 word \<Rightarrow> mem"

definition call_SHA256_hasher ::
  "digest \<Rightarrow> (SHA256_hasher \<Rightarrow> kernel) \<Rightarrow> SHA256_hasher \<Rightarrow> kernel" where
  "call_SHA256_hasher H K p = (case p of ptr_sha256_sse \<Rightarrow> sha256_sse H | _ \<Rightarrow> K p)"

text \<open>
  Modelled from the spec: the member function of \<open>hasher.hpp\<close> that hashes through
  \<open>_hash_64b_blocks\<close> is missing. By the spec the dispatcher forwards every pair-hashing
  request to its bound kernel, which is \<open>Call_hash\<close>. The other operations are the
  static member functions that \<open>hasher.cpp\<close> defines; none of them has the object in
  scope. A call through a pointer that was never bound has no result.
\<close>

datatype operation =
  Call_hash addr addr "64 word"
| Call_sha256_sse addr addr "64 word"
| Call_implemented
| Call_best_sha256_implementation

record world =
  object :: Hasher
  memory :: mem

fun step :: "digest \<Rightarrow> (SHA256_hasher \<Rightarrow> kernel) \<Rightarrow> world \<Rightarrow> operation \<Rightarrow> world option" where
  "step H K w (Call_hash out inp blocks) =
     (case hash_64b_blocks (object w) of
        None \<Rightarrow> None
      | Some p \<Rightarrow> Some (w\<lparr>memory := call_SHA256_hasher H K p (memory w) out inp blocks\<rparr>))"
| "step H K w (Call_sha256_sse out inp blocks) =
     Some (w\<lparr>memory := sha256_sse H (memory w) out inp blocks\<rparr>)"
| "step H K w Call_implemented = Some w"
| "step H K w Call_best_sha256_implementation = Some w"

fun run :: "digest \<Rightarrow> (SHA256_hasher \<Rightarrow> kernel) \<Rightarrow> world \<Rightarrow> operation list \<Rightarrow> world option" where
  "run H K w [] = Some w"
| "run H K w (c # cs) = (case step H K w c of None \<Rightarrow> None | Some w' \<Rightarrow> run H K w' cs)"

text \<open>
  Modelled from the spec: the kernels \<open>sha256_shani\<close>, \<open>sha256_8_avx2\<close> and
  \<open>sha256_4_avx\<close> are only declared (\<open>hasher.h\<close>); their bodies are external assembly
  and not among the sources. By the spec every backend satisfies exactly the contract
  of the pair-hashing operation: for each index \<open>i\<close> below the block count it reads bytes
  \<open>[i*64, i*64+64)\<close> of the input as two concatenated 32-byte values and writes their
  32-byte digest to bytes \<open>[i*32, i*32+32)\<close> of the output; it writes only to the output
  region; and all backends produce the same digest. \<open>hash_pairs_contract\<close> is that
  contract as a function on the store, and \<open>hasher_h_kernels\<close> gives it to each of the
  three external kernels.
\<close>

definition hash_pairs_contract :: "digest \<Rightarrow> kernel" where
  "hash_pairs_contract H m out inp blocks =
     (\<lambda>a. if out \<le> a \<and> a < out + BYTES_PER_CHUNK * unat blocks
          then H (map m [inp + (a - out) div BYTES_PER_CHUNK * (2 * BYTES_PER_CHUNK) ..<
                         inp + (a - out) div BYTES_PER_CHUNK * (2 * BYTES_PER_CHUNK)
                           + 2 * BYTES_PER_CHUNK])
                 ((a - out) mod BYTES_PER_CHUNK)
          else m a)"

definition hasher_h_kernels :: "digest \<Rightarrow> SHA256_hasher \<Rightarrow> kernel" where
  "hasher_h_kernels H p = hash_pairs_contract H"

section \<open>The selection policy in the words of the spec\<close>

text \<open>
  The spec describes the policy as a walk over an ordered catalog of descriptors, each a
  required flag with a kernel: hardware SHA first, then 8-way AVX2, then 4-way AVX. The
  first descriptor whose flag is present in the capability set wins, and a designated
  fallback is returned when none matches. These definitions follow that description;
  the theorems compare them with \<open>best_sha256_for\<close>.
\<close>

definition present :: "'w::len IMPL \<Rightarrow> 'w IMPL \<Rightarrow> bool" where
  "present flag caps = (\<not> IMPL_not (IMPL_and caps flag))"

definition catalog :: "'w::len IMPL IMPL_enum \<Rightarrow> ('w IMPL \<times> SHA256_hasher) list" where
  "catalog E =
     [(SHA E, ptr_sha256_shani), (AVX2 E, ptr_sha256_8_avx2), (AVX E, ptr_sha256_4_avx)]"

definition fallback :: SHA256_hasher where
  "fallback = ptr_sha256_sse"

definition select_spec :: "'w::len IMPL IMPL_enum \<Rightarrow> 'w IMPL \<Rightarrow> SHA256_hasher" where
  "select_spec E caps =
     (case find (\<lambda>(flag, k). present flag caps) (catalog E) of
        Some (flag, k) \<Rightarrow> k
      | None \<Rightarrow> fallback)"

text \<open>The flag a kernel's descriptor requires; the fallback has no descriptor.\<close>

definition required_flag :: "'w::len IMPL IMPL_enum \<Rightarrow> SHA256_hasher \<Rightarrow> 'w IMPL option" where
  "required_flag E k = map_option fst (find (\<lambda>(flag, k'). k' = k) (catalog E))"

text \<open>The four \<open>case\<close> labels of the constructor's \<open>switch\<close>.\<close>

definition single_flags :: "'w::len IMPL IMPL_enum \<Rightarrow> 'w IMPL list" where
  "single_flags E = [SHA E, AVX2 E, AVX E, SSE E]"

section \<open>Example processors\<close>

text \<open>
  A processor whose highest basic leaf is 13, with AVX2 in leaf 7 and AVX and SSE3 in
  leaf 1, but no SHA extension.
\<close>

definition hw_avx2 :: cpu where
  "hw_avx2 = \<lparr>has_cpuid = True,
     cpuid = (\<lambda>leaf subleaf.
        if leaf = 0 then \<lparr>eax = 13, ebx = 0, ecx = 0, edx = 0\<rparr>
        else if leaf = 1 then \<lparr>eax = 0, ebx = 0, ecx = 0x10000001, edx = 0\<rparr>
        else if leaf = 7 then \<lparr>eax = 0, ebx = 0x20, ecx = 0, edx = 0\<rparr>
        else \<lparr>eax = 0, ebx = 0, ecx = 0, edx = 0\<rparr>)\<rparr>"

text \<open>
  An older 64-bit processor: the highest basic leaf is 1, so leaf 7 cannot be queried;
  leaf 1 reports SSE3 and no AVX.
\<close>

definition hw_leaf1 :: cpu where
  "hw_leaf1 = \<lparr>has_cpuid = True,
     cpuid = (\<lambda>leaf subleaf.
        if leaf = 0 then \<lparr>eax = 1, ebx = 0, ecx = 0, edx = 0\<rparr>
        else if leaf = 1 then \<lparr>eax = 0, ebx = 0, ecx = 1, edx = 0\<rparr>
        else \<lparr>eax = 0, ebx = 0, ecx = 0, edx = 0\<rparr>)\<rparr>"

text \<open>A processor without the \<open>cpuid\<close> instruction.\<close>

definition hw_no_cpuid :: cpu where
  "hw_no_cpuid = \<lparr>has_cpuid = False,
     cpuid = (\<lambda>leaf subleaf. \<lparr>eax = 0, ebx = 0, ecx = 0, edx = 0\<rparr>)\<rparr>"

text \<open>Two contents of the uninitialised locals: all zero, and bit 29 set in \<open>b\<close>.\<close>

definition regs_zero :: regs where
  "regs_zero = \<lparr>eax = 0, ebx = 0, ecx = 0, edx = 0\<rparr>"

definition regs_stale :: regs where
  "regs_stale = \<lparr>eax = 0, ebx = 0x20000000, ecx = 0, edx = 0\<rparr>"

text \<open>A store and a digest to run the loop on: byte \<open>a\<close> of the store is \<open>a mod 256\<close>.\<close>

definition mem_ramp :: mem where
  "mem_ramp = (\<lambda>a. of_nat a)"

definition H_sum :: digest where
  "H_sum = (\<lambda>block j. sum_list block + of_nat j)"

section \<open>Facts about the bit operations and the processor query\<close>

lemmas cpu_query_defs =
  get_cpuid_count_def get_cpuid_def get_cpuid_max_def CPUID_LEAF_def
  bit_SHA_def bit_AVX2_def bit_AVX_def bit_SSE3_def

lemma present_iff: "present flag caps \<longleftrightarrow> caps AND flag \<noteq> 0"
  by (simp add: present_def IMPL_not_def IMPL_and_def)

lemma and_mask_out:
  fixes f s x :: "'w::len word"
  shows "f AND s = 0 \<Longrightarrow> (x AND NOT s) AND f = x AND f"
  by (rule bit_eqI) (auto simp: bit_and_iff bit_not_iff bit_eq_iff)

lemma or_and_disjoint:
  fixes f g x :: "'w::len word"
  shows "g AND f = 0 \<Longrightarrow> (x OR g) AND f = x AND f"
  by (rule bit_eqI) (auto simp: bit_and_iff bit_or_iff bit_eq_iff)

lemma or_and_self:
  fixes f x :: "'w::len word"
  shows "(x OR f) AND f = f"
  by (rule bit_eqI) (auto simp: bit_and_iff bit_or_iff)

lemma and_not_and_self:
  fixes f x :: "'w::len word"
  shows "(x AND NOT f) AND f = 0"
  by (rule bit_eqI) (auto simp: bit_and_iff bit_not_iff)

lemma IMPL_low_bits_bitmask: "IMPL_bitmask IMPL_low_bits"
  by (simp add: IMPL_bitmask_def IMPL_low_bits_def)

lemma single_flags_disjoint:
  assumes "IMPL_bitmask E" and "f \<in> set (single_flags E)" and "g \<in> set (single_flags E)"
    and "f \<noteq> g"
  shows "f AND g = 0"
  using assms by (auto simp: IMPL_bitmask_def single_flags_def and.commute)

lemma single_flags_nonzero:
  assumes "IMPL_bitmask E" and "f \<in> set (single_flags E)"
  shows "f \<noteq> 0"
  using assms by (auto simp: IMPL_bitmask_def single_flags_def)

lemma NONE_not_single_flag:
  assumes "IMPL_bitmask E"
  shows "NONE E \<notin> set (single_flags E)"
  using assms by (auto simp: IMPL_bitmask_def single_flags_def)

lemma combined_not_single_flag:
  assumes wf: "IMPL_bitmask E"
    and f: "f \<in> set (single_flags E)" and g: "g \<in> set (single_flags E)" and ne: "f \<noteq> g"
  shows "IMPL_or f g \<notin> set (single_flags E)"
proof
  assume "IMPL_or f g \<in> set (single_flags E)"
  then have both: "f OR g \<in> set (single_flags E)"
    by (simp add: IMPL_or_def)
  have "(f OR g) AND f \<noteq> 0"
    using single_flags_nonzero [OF wf f] by (simp add: or.commute [of f g] or_and_self)
  then have is_f: "f OR g = f"
    using single_flags_disjoint [OF wf both f] by blast
  have "(f OR g) AND g \<noteq> 0"
    using single_flags_nonzero [OF wf g] by (simp add: or_and_self)
  then have is_g: "f OR g = g"
    using single_flags_disjoint [OF wf both g] by blast
  from is_f is_g ne show False by simp
qed

section \<open>The selection policy\<close>

text \<open>
  C1. The policy tries hardware SHA first, then 8-way AVX2, then 4-way AVX, and returns
  the kernel of the first flag that is present in the capability set:
  \<open>best_sha256_for\<close> is the walk over the ordered catalog, for every capability set and
  for the set that \<open>implemented\<close> detects. With several flags present the earliest one
  in that order decides.
\<close>

theorem best_sha256_first_match:
  "best_sha256_for E caps = select_spec E caps \<and>
   best_sha256_implementation E hw r0 = select_spec E (implemented E hw r0) \<and>
   (present (SHA E) caps \<longrightarrow> best_sha256_for E caps = ptr_sha256_shani) \<and>
   (\<not> present (SHA E) caps \<and> present (AVX2 E) caps \<longrightarrow>
      best_sha256_for E caps = ptr_sha256_8_avx2) \<and>
   (\<not> present (SHA E) caps \<and> \<not> present (AVX2 E) caps \<and> present (AVX E) caps \<longrightarrow>
      best_sha256_for E caps = ptr_sha256_4_avx)"
proof -
  have walk: "best_sha256_for E c = select_spec E c" for c
    by (simp add: best_sha256_for_def select_spec_def catalog_def fallback_def present_def)
  have "best_sha256_implementation E hw r0 = select_spec E (implemented E hw r0)"
    unfolding best_sha256_implementation_def by (rule walk)
  moreover have "present (SHA E) caps \<longrightarrow> best_sha256_for E caps = ptr_sha256_shani"
    by (simp add: best_sha256_for_def present_def)
  moreover have "\<not> present (SHA E) caps \<and> present (AVX2 E) caps \<longrightarrow>
      best_sha256_for E caps = ptr_sha256_8_avx2"
    by (simp add: best_sha256_for_def present_def)
  moreover have "\<not> present (SHA E) caps \<and> \<not> present (AVX2 E) caps \<and> present (AVX E) caps \<longrightarrow>
      best_sha256_for E caps = ptr_sha256_4_avx"
    by (simp add: best_sha256_for_def present_def)
  ultimately show ?thesis
    using walk [of caps] by blast
qed

theorem best_sha256_first_match_witness:
  "present (SHA IMPL_low_bits) 12 \<and> present (AVX2 IMPL_low_bits) 12 \<and>
   best_sha256_for IMPL_low_bits 12 = ptr_sha256_shani \<and>
   \<not> present (SHA IMPL_low_bits) 6 \<and> present (AVX2 IMPL_low_bits) 6 \<and>
   present (AVX IMPL_low_bits) 6 \<and>
   best_sha256_for IMPL_low_bits 6 = ptr_sha256_8_avx2 \<and>
   \<not> present (SHA IMPL_low_bits) 3 \<and> \<not> present (AVX2 IMPL_low_bits) 3 \<and>
   present (AVX IMPL_low_bits) 3 \<and>
   best_sha256_for IMPL_low_bits 3 = ptr_sha256_4_avx"
proof -
  have flags12: "present (SHA IMPL_low_bits) 12" "present (AVX2 IMPL_low_bits) 12"
    and flags6: "\<not> present (SHA IMPL_low_bits) 6" "present (AVX2 IMPL_low_bits) 6"
      "present (AVX IMPL_low_bits) 6"
    and flags3: "\<not> present (SHA IMPL_low_bits) 3" "\<not> present (AVX2 IMPL_low_bits) 3"
      "present (AVX IMPL_low_bits) 3"
    by (simp_all add: present_iff IMPL_low_bits_def)
  have "best_sha256_for IMPL_low_bits 12 = ptr_sha256_shani"
    using best_sha256_first_match
      [where E = IMPL_low_bits and caps = 12 and hw = hw_avx2 and ?r0.0 = regs_zero]
      flags12 by blast
  moreover have "best_sha256_for IMPL_low_bits 6 = ptr_sha256_8_avx2"
    using best_sha256_first_match
      [where E = IMPL_low_bits and caps = 6 and hw = hw_avx2 and ?r0.0 = regs_zero]
      flags6 by blast
  moreover have "best_sha256_for IMPL_low_bits 3 = ptr_sha256_4_avx"
    using best_sha256_first_match
      [where E = IMPL_low_bits and caps = 3 and hw = hw_avx2 and ?r0.0 = regs_zero]
      flags3 by blast
  ultimately show ?thesis
    using flags12 flags6 flags3 by simp
qed

lemma best_sha256_for_usable:
  "best_sha256_for E caps = fallback \<or>
   (\<exists>flag. required_flag E (best_sha256_for E caps) = Some flag \<and> present flag caps)"
  by (simp add: best_sha256_for_def required_flag_def catalog_def fallback_def present_def)

text \<open>
  C2. Selection is total: for every capability set it yields exactly one kernel, and
  that kernel is either the fallback or a catalog kernel whose required flag is present
  in the set. The same holds for the set that \<open>implemented\<close> detects.
\<close>

theorem best_sha256_total_and_usable:
  "(\<exists>!k. best_sha256_for E caps = k) \<and>
   (best_sha256_for E caps = fallback \<or>
    (\<exists>flag. required_flag E (best_sha256_for E caps) = Some flag \<and> present flag caps)) \<and>
   (\<exists>!k. best_sha256_implementation E hw r0 = k) \<and>
   (best_sha256_implementation E hw r0 = fallback \<or>
    (\<exists>flag. required_flag E (best_sha256_implementation E hw r0) = Some flag \<and>
       present flag (implemented E hw r0)))"
proof -
  have "best_sha256_implementation E hw r0 = fallback \<or>
    (\<exists>flag. required_flag E (best_sha256_implementation E hw r0) = Some flag \<and>
       present flag (implemented E hw r0))"
    unfolding best_sha256_implementation_def by (rule best_sha256_for_usable)
  with best_sha256_for_usable [of E caps] show ?thesis by simp
qed

text \<open>
  C9. The SSE flag is recorded by \<open>implemented\<close> (from bit 0 of \<open>ecx\<close> after the leaf 1
  query) but never changes the selection: two capability sets that agree outside the
  SSE flag select the same kernel, setting the flag changes nothing, and when SHA, AVX2
  and AVX are all absent the result is \<open>sha256_sse\<close> with or without SSE.
\<close>

theorem best_sha256_ignores_SSE:
  assumes wf: "IMPL_bitmask E"
  shows "(caps1 AND NOT (SSE E) = caps2 AND NOT (SSE E) \<longrightarrow>
            best_sha256_for E caps1 = best_sha256_for E caps2) \<and>
         best_sha256_for E (IMPL_or caps (SSE E)) = best_sha256_for E caps \<and>
         (\<not> present (SHA E) caps \<and> \<not> present (AVX2 E) caps \<and> \<not> present (AVX E) caps \<longrightarrow>
            best_sha256_for E caps = ptr_sha256_sse \<and>
            best_sha256_for E (IMPL_or caps (SSE E)) = ptr_sha256_sse) \<and>
         present (SSE E) (implemented E hw r0) =
           (ecx (snd (get_cpuid hw 1 (snd (get_cpuid_count hw CPUID_LEAF 0 r0))))
              AND bit_SSE3 \<noteq> 0)"
proof -
  have n: "NONE E = 0" and s: "SSE E \<noteq> 0"
    and d: "SHA E AND SSE E = 0" "AVX2 E AND SSE E = 0" "AVX E AND SSE E = 0"
    and d': "SSE E AND SHA E = 0" "SSE E AND AVX2 E = 0" "SSE E AND AVX E = 0"
    using wf by (simp_all add: IMPL_bitmask_def and.commute)
  have agree: "best_sha256_for E caps1 = best_sha256_for E caps2"
    if eq: "caps1 AND NOT (SSE E) = caps2 AND NOT (SSE E)"
  proof -
    have t: "caps1 AND f = caps2 AND f" if "f AND SSE E = 0" for f
      using and_mask_out [OF that, of caps1] and_mask_out [OF that, of caps2] eq by simp
    show ?thesis
      by (simp add: best_sha256_for_def IMPL_and_def t d)
  qed
  have set_SSE: "best_sha256_for E (IMPL_or caps (SSE E)) = best_sha256_for E caps"
    by (simp add: best_sha256_for_def IMPL_and_def IMPL_or_def or_and_disjoint d')
  have none: "best_sha256_for E caps = ptr_sha256_sse"
    if "\<not> present (SHA E) caps \<and> \<not> present (AVX2 E) caps \<and> \<not> present (AVX E) caps"
    using that by (simp add: best_sha256_for_def present_def)
  have recorded: "present (SSE E) (implemented E hw r0) =
      (ecx (snd (get_cpuid hw 1 (snd (get_cpuid_count hw CPUID_LEAF 0 r0))))
         AND bit_SSE3 \<noteq> 0)"
    using s by (simp add: implemented_def Let_def IMPL_or_def present_iff n
        or_and_self or_and_disjoint d)
  from agree set_SSE none recorded show ?thesis by simp
qed

theorem best_sha256_ignores_SSE_witness:
  "IMPL_bitmask IMPL_low_bits \<and>
   (2 :: 32 word) AND NOT (SSE IMPL_low_bits) = 3 AND NOT (SSE IMPL_low_bits) \<and>
   best_sha256_for IMPL_low_bits 2 = best_sha256_for IMPL_low_bits 3 \<and>
   best_sha256_for IMPL_low_bits 3 = ptr_sha256_4_avx \<and>
   \<not> present (SHA IMPL_low_bits) 0 \<and> \<not> present (AVX2 IMPL_low_bits) 0 \<and>
   \<not> present (AVX IMPL_low_bits) 0 \<and>
   best_sha256_for IMPL_low_bits 0 = ptr_sha256_sse \<and>
   best_sha256_for IMPL_low_bits (IMPL_or 0 (SSE IMPL_low_bits)) = ptr_sha256_sse \<and>
   present (SSE IMPL_low_bits) (implemented IMPL_low_bits hw_avx2 regs_zero)"
  using best_sha256_ignores_SSE [OF IMPL_low_bits_bitmask,
      where ?caps1.0 = 2 and ?caps2.0 = 3 and caps = 0 and hw = hw_avx2 and ?r0.0 = regs_zero]
    IMPL_low_bits_bitmask
  by (simp add: present_iff IMPL_low_bits_def best_sha256_for_def IMPL_and_def IMPL_not_def
      hw_avx2_def regs_zero_def cpu_query_defs)

section \<open>The probe\<close>

lemma unsupported_query_keeps_locals:
  "get_cpuid_max hw 0 = 0 \<or> get_cpuid_max hw 0 < CPUID_LEAF \<Longrightarrow>
   get_cpuid_count hw CPUID_LEAF 0 r = (0, r)"
  by (auto simp: get_cpuid_count_def CPUID_LEAF_def Let_def)

text \<open>
  Where leaf 7 cannot be queried, the SHA flag of the result is bit 29 of whatever the
  local \<open>b\<close> held before the query.
\<close>

lemma implemented_SHA_from_stale_ebx:
  assumes wf: "IMPL_bitmask E"
    and unsupported: "get_cpuid_max hw 0 = 0 \<or> get_cpuid_max hw 0 < CPUID_LEAF"
  shows "present (SHA E) (implemented E hw r0) = (ebx r0 AND bit_SHA \<noteq> 0)"
proof -
  have n: "NONE E = 0" and s: "SHA E \<noteq> 0"
    and d: "AVX2 E AND SHA E = 0" "AVX E AND SHA E = 0" "SSE E AND SHA E = 0"
    using wf by (simp_all add: IMPL_bitmask_def and.commute)
  show ?thesis
    using s by (simp add: implemented_def Let_def IMPL_or_def present_iff n
        unsupported_query_keeps_locals [OF unsupported] or_and_self or_and_disjoint d)
qed

text \<open>
  C3. The claim: where the query is unsupported, \<open>implemented\<close> returns \<open>NONE\<close>. The
  code does not do that. On a processor whose highest leaf is 1 the leaf 7 query returns
  0 and stores nothing, \<open>implemented\<close> then tests what the uninitialised \<open>b\<close> held, and
  with bit 29 set there it reports SHA (and SSE, from leaf 1), so that selection binds
  \<open>sha256_shani\<close>. Without the \<open>cpuid\<close> instruction both queries store nothing and
  the result is read off the uninitialised locals alone. Only with the locals zero is
  the result \<open>NONE\<close>.
\<close>

theorem implemented_reads_uninitialised_locals:
  "get_cpuid_count hw_leaf1 CPUID_LEAF 0 regs_stale = (0, regs_stale) \<and>
   implemented IMPL_low_bits hw_leaf1 regs_stale
     = IMPL_or (SHA IMPL_low_bits) (SSE IMPL_low_bits) \<and>
   implemented IMPL_low_bits hw_leaf1 regs_stale \<noteq> NONE IMPL_low_bits \<and>
   best_sha256_implementation IMPL_low_bits hw_leaf1 regs_stale = ptr_sha256_shani \<and>
   get_cpuid hw_no_cpuid 1 regs_stale = (0, regs_stale) \<and>
   implemented IMPL_low_bits hw_no_cpuid regs_stale = SHA IMPL_low_bits \<and>
   implemented IMPL_low_bits hw_no_cpuid regs_zero = NONE IMPL_low_bits"
  by (simp add: best_sha256_implementation_def best_sha256_for_def implemented_def
      hw_leaf1_def hw_no_cpuid_def regs_stale_def regs_zero_def IMPL_low_bits_def
      cpu_query_defs IMPL_or_def IMPL_and_def IMPL_not_def)

section \<open>The capability mask as a monoid\<close>

text \<open>
  C8. With the operators and enumerators of the missing \<open>hasher.hpp\<close> modelled as a
  bitmask: \<open>|\<close> is commutative and associative with \<open>NONE\<close> as identity on both sides,
  so \<open>implemented() | NONE\<close> is \<open>implemented()\<close>; and the SHA and AVX2 tests are
  independent: setting or clearing SHA in any set decides the SHA test and leaves the
  AVX2 test as it was.
\<close>

theorem IMPL_or_monoid_flags_independent:
  assumes wf: "IMPL_bitmask E"
  shows "IMPL_or caps (NONE E) = caps \<and> IMPL_or (NONE E) caps = caps \<and>
     IMPL_or a b = IMPL_or b a \<and> IMPL_or (IMPL_or a b) c = IMPL_or a (IMPL_or b c) \<and>
     IMPL_or (implemented E hw r0) (NONE E) = implemented E hw r0 \<and>
     present (SHA E) (IMPL_or caps (SHA E)) \<and>
     \<not> present (SHA E) (IMPL_and caps (NOT (SHA E))) \<and>
     present (AVX2 E) (IMPL_or caps (SHA E)) = present (AVX2 E) caps \<and>
     present (AVX2 E) (IMPL_and caps (NOT (SHA E))) = present (AVX2 E) caps \<and>
     present (SHA E) (SHA E) \<and> \<not> present (AVX2 E) (SHA E) \<and>
     present (SHA E) (IMPL_or (AVX2 E) (SHA E)) \<and>
     present (AVX2 E) (IMPL_or (AVX2 E) (SHA E))"
proof -
  have n: "NONE E = 0" and s: "SHA E \<noteq> 0" and s2: "AVX2 E \<noteq> 0"
    and d: "AVX2 E AND SHA E = 0" and d': "SHA E AND AVX2 E = 0"
    using wf by (simp_all add: IMPL_bitmask_def and.commute)
  have monoid: "IMPL_or caps (NONE E) = caps \<and> IMPL_or (NONE E) caps = caps \<and>
     IMPL_or a b = IMPL_or b a \<and> IMPL_or (IMPL_or a b) c = IMPL_or a (IMPL_or b c) \<and>
     IMPL_or (implemented E hw r0) (NONE E) = implemented E hw r0"
    by (simp add: IMPL_or_def n or.commute or.assoc or.left_commute)
  have any: "present (SHA E) (IMPL_or caps (SHA E)) \<and>
     \<not> present (SHA E) (IMPL_and caps (NOT (SHA E))) \<and>
     present (AVX2 E) (IMPL_or caps (SHA E)) = present (AVX2 E) caps \<and>
     present (AVX2 E) (IMPL_and caps (NOT (SHA E))) = present (AVX2 E) caps"
    using s by (simp add: IMPL_or_def IMPL_and_def present_iff
        or_and_self or_and_disjoint [OF d'] and_mask_out [OF d] and_not_and_self)
  have both: "present (SHA E) (SHA E) \<and> \<not> present (AVX2 E) (SHA E) \<and>
     present (SHA E) (IMPL_or (AVX2 E) (SHA E)) \<and>
     present (AVX2 E) (IMPL_or (AVX2 E) (SHA E))"
    using s s2 by (simp add: IMPL_or_def present_iff or_and_self or_and_disjoint [OF d'] d')
  from monoid any both show ?thesis by blast
qed

theorem IMPL_or_monoid_flags_independent_witness:
  "IMPL_bitmask IMPL_low_bits \<and>
   IMPL_or 7 (NONE IMPL_low_bits) = 7 \<and>
   IMPL_or 1 2 = IMPL_or 2 (1 :: 32 word) \<and>
   IMPL_or (implemented IMPL_low_bits hw_avx2 regs_zero) (NONE IMPL_low_bits)
     = implemented IMPL_low_bits hw_avx2 regs_zero \<and>
   present (SHA IMPL_low_bits) (IMPL_or 7 (SHA IMPL_low_bits)) \<and>
   present (AVX2 IMPL_low_bits) (IMPL_or 7 (SHA IMPL_low_bits))
     = present (AVX2 IMPL_low_bits) 7 \<and>
   present (AVX2 IMPL_low_bits) (IMPL_or 1 (SHA IMPL_low_bits))
     = present (AVX2 IMPL_low_bits) 1"
proof -
  note at7 = IMPL_or_monoid_flags_independent [OF IMPL_low_bits_bitmask,
      where caps = 7 and hw = hw_avx2 and ?r0.0 = regs_zero and a = 1 and b = 2 and c = 4]
  note at1 = IMPL_or_monoid_flags_independent [OF IMPL_low_bits_bitmask,
      where caps = 1 and hw = hw_avx2 and ?r0.0 = regs_zero and a = 1 and b = 2 and c = 4]
  from at7 have "IMPL_or 7 (NONE IMPL_low_bits) = 7" by (rule conjunct1)
  moreover from at7 have "IMPL_or 1 2 = IMPL_or 2 (1 :: 32 word)" by blast
  moreover from at7 have "IMPL_or (implemented IMPL_low_bits hw_avx2 regs_zero) (NONE IMPL_low_bits)
     = implemented IMPL_low_bits hw_avx2 regs_zero" by blast
  moreover from at7 have "present (SHA IMPL_low_bits) (IMPL_or 7 (SHA IMPL_low_bits))" by blast
  moreover from at7 have "present (AVX2 IMPL_low_bits) (IMPL_or 7 (SHA IMPL_low_bits))
     = present (AVX2 IMPL_low_bits) 7" by blast
  moreover from at1 have "present (AVX2 IMPL_low_bits) (IMPL_or 1 (SHA IMPL_low_bits))
     = present (AVX2 IMPL_low_bits) 1" by blast
  ultimately show ?thesis
    using IMPL_low_bits_bitmask by blast
qed

section \<open>The constructor\<close>

lemma Hasher_binds: "\<exists>p. hash_64b_blocks (Hasher E hw r0 impl) = Some p"
  by (simp add: Hasher_def unbound_def)

text \<open>
  C10. For every \<open>impl\<close> the constructor binds exactly one kernel. An argument that is
  none of the four \<open>case\<close> labels takes the \<open>default\<close> branch and binds what
  \<open>best_sha256_implementation\<close> selects from the probed hardware. \<open>NONE\<close> and the
  union of any two different flags (such as \<open>SHA | AVX2\<close>) are such arguments.
\<close>

theorem Hasher_default_branch:
  "(\<exists>!p. hash_64b_blocks (Hasher E hw r0 impl) = Some p) \<and>
   (impl \<notin> set (single_flags E) \<longrightarrow>
      Hasher E hw r0 impl
        = unbound\<lparr>hash_64b_blocks := Some (best_sha256_implementation E hw r0)\<rparr>) \<and>
   (IMPL_bitmask E \<longrightarrow>
      NONE E \<notin> set (single_flags E) \<and>
      (\<forall>f \<in> set (single_flags E). \<forall>g \<in> set (single_flags E).
         f \<noteq> g \<longrightarrow> IMPL_or f g \<notin> set (single_flags E)))"
proof -
  have one: "\<exists>!p. hash_64b_blocks (Hasher E hw r0 impl) = Some p"
    using Hasher_binds [of E hw r0 impl] by auto
  have dflt: "impl \<notin> set (single_flags E) \<longrightarrow>
      Hasher E hw r0 impl
        = unbound\<lparr>hash_64b_blocks := Some (best_sha256_implementation E hw r0)\<rparr>"
    by (simp add: Hasher_def single_flags_def)
  from one dflt NONE_not_single_flag [of E] combined_not_single_flag [of E]
  show ?thesis by blast
qed

theorem Hasher_default_branch_witness:
  "IMPL_bitmask IMPL_low_bits \<and>
   IMPL_or (SHA IMPL_low_bits) (AVX2 IMPL_low_bits) = 12 \<and>
   12 \<notin> set (single_flags IMPL_low_bits) \<and>
   Hasher IMPL_low_bits hw_avx2 regs_zero 12
     = unbound\<lparr>hash_64b_blocks := Some (best_sha256_implementation IMPL_low_bits hw_avx2 regs_zero)\<rparr> \<and>
   NONE IMPL_low_bits \<notin> set (single_flags IMPL_low_bits) \<and>
   Hasher IMPL_low_bits hw_avx2 regs_zero (NONE IMPL_low_bits)
     = unbound\<lparr>hash_64b_blocks := Some (best_sha256_implementation IMPL_low_bits hw_avx2 regs_zero)\<rparr> \<and>
   best_sha256_implementation IMPL_low_bits hw_avx2 regs_zero = ptr_sha256_8_avx2"
proof -
  have m: "IMPL_or (SHA IMPL_low_bits) (AVX2 IMPL_low_bits) = 12"
    "12 \<notin> set (single_flags IMPL_low_bits)"
    "NONE IMPL_low_bits \<notin> set (single_flags IMPL_low_bits)"
    by (simp_all add: IMPL_or_def IMPL_low_bits_def single_flags_def)
  have b: "best_sha256_implementation IMPL_low_bits hw_avx2 regs_zero = ptr_sha256_8_avx2"
    by (simp add: best_sha256_implementation_def best_sha256_for_def implemented_def
        hw_avx2_def regs_zero_def IMPL_low_bits_def cpu_query_defs
        IMPL_or_def IMPL_and_def IMPL_not_def)
  show ?thesis
    using Hasher_default_branch
        [where E = IMPL_low_bits and hw = hw_avx2 and ?r0.0 = regs_zero and impl = 12]
      Hasher_default_branch
        [where E = IMPL_low_bits and hw = hw_avx2 and ?r0.0 = regs_zero
           and impl = "NONE IMPL_low_bits"]
      IMPL_low_bits_bitmask m b
    by blast
qed

section \<open>The loop of \<open>sha256_sse\<close>\<close>

lemma sha256_sse_no_blocks: "sha256_sse H m out inp 0 = m"
  by (simp add: sha256_sse.simps)

lemma sha256_sse_unroll:
  "blocks \<noteq> 0 \<Longrightarrow>
   sha256_sse H m out inp blocks =
     sha256_sse H (sha256_1_avx H m out inp)
       (out + BYTES_PER_CHUNK) (inp + 2 * BYTES_PER_CHUNK) (blocks - 1)"
  by (subst sha256_sse.simps) simp

lemma sha256_sse_single: "sha256_sse H m out inp 1 = sha256_1_avx H m out inp"
  by (simp add: sha256_sse_unroll sha256_sse_no_blocks)

lemma unat_pred:
  fixes blocks :: "64 word"
  shows "blocks \<noteq> 0 \<Longrightarrow> unat (blocks - 1) = unat blocks - 1"
  by (simp add: unat_minus_one)

lemma unat_pos:
  fixes blocks :: "64 word"
  shows "blocks \<noteq> 0 \<Longrightarrow> 0 < unat blocks"
  by (simp add: unat_gt_0)

lemma sha256_1_avx_outside:
  "a < out \<or> out + BYTES_PER_CHUNK \<le> a \<Longrightarrow> sha256_1_avx H m out inp a = m a"
  by (auto simp: sha256_1_avx_def)

lemma sha256_1_avx_inside:
  "j < BYTES_PER_CHUNK \<Longrightarrow>
   sha256_1_avx H m out inp (out + j) = H (map m [inp ..< inp + 2 * BYTES_PER_CHUNK]) j"
  by (simp add: sha256_1_avx_def)

text \<open>The loop writes only into the \<open>32 * blocks\<close> bytes that start at \<open>out\<close>.\<close>

lemma sha256_sse_frame:
  "a < out \<or> out + BYTES_PER_CHUNK * unat blocks \<le> a \<Longrightarrow>
   sha256_sse H m out inp blocks a = m a"
proof (induction H m out inp blocks rule: sha256_sse.induct)
  case (1 H m out inp blocks)
  show ?case
  proof (cases "blocks = 0")
    case True
    then show ?thesis by (simp add: sha256_sse_no_blocks)
  next
    case False
    have pos: "0 < unat blocks" using False by (rule unat_pos)
    have pred: "unat (blocks - 1) = unat blocks - 1" using False by (rule unat_pred)
    have rest: "a < out + BYTES_PER_CHUNK \<or>
        out + BYTES_PER_CHUNK + BYTES_PER_CHUNK * unat (blocks - 1) \<le> a"
      using "1.prems" pos pred by (cases "unat blocks") auto
    have first: "a < out \<or> out + BYTES_PER_CHUNK \<le> a"
      using "1.prems" pos by (cases "unat blocks") auto
    have "sha256_sse H m out inp blocks a =
        sha256_sse H (sha256_1_avx H m out inp)
          (out + BYTES_PER_CHUNK) (inp + 2 * BYTES_PER_CHUNK) (blocks - 1) a"
      using False by (simp add: sha256_sse_unroll)
    also have "\<dots> = sha256_1_avx H m out inp a"
      using "1.IH" [OF False rest] .
    also have "\<dots> = m a"
      using first by (rule sha256_1_avx_outside)
    finally show ?thesis .
  qed
qed

text \<open>
  When the output region and the input region do not overlap, block \<open>i\<close> of the output
  is the digest of block \<open>i\<close> of the input as it was before the call.
\<close>

lemma sha256_sse_block:
  "out + BYTES_PER_CHUNK * unat blocks \<le> inp \<or> inp + 2 * BYTES_PER_CHUNK * unat blocks \<le> out \<Longrightarrow>
   i < unat blocks \<Longrightarrow> j < BYTES_PER_CHUNK \<Longrightarrow>
   sha256_sse H m out inp blocks (out + i * BYTES_PER_CHUNK + j) =
     H (map m [inp + i * (2 * BYTES_PER_CHUNK) ..<
               inp + i * (2 * BYTES_PER_CHUNK) + 2 * BYTES_PER_CHUNK]) j"
proof (induction H m out inp blocks arbitrary: i rule: sha256_sse.induct)
  case (1 H m out inp blocks)
  from "1.prems"(2) have nz: "blocks \<noteq> 0" by auto
  have pos: "0 < unat blocks" using nz by (rule unat_pos)
  have pred: "unat (blocks - 1) = unat blocks - 1" using nz by (rule unat_pred)
  let ?m' = "sha256_1_avx H m out inp"
  let ?lo = "\<lambda>k. inp + 2 * BYTES_PER_CHUNK + k * (2 * BYTES_PER_CHUNK)"
  have unroll: "sha256_sse H m out inp blocks =
      sha256_sse H ?m' (out + BYTES_PER_CHUNK) (inp + 2 * BYTES_PER_CHUNK) (blocks - 1)"
    using nz by (rule sha256_sse_unroll)
  show ?case
  proof (cases i)
    case 0
    have "sha256_sse H m out inp blocks (out + j) = ?m' (out + j)"
      unfolding unroll using "1.prems"(3) by (intro sha256_sse_frame) simp
    also have "\<dots> = H (map m [inp ..< inp + 2 * BYTES_PER_CHUNK]) j"
      using "1.prems"(3) by (rule sha256_1_avx_inside)
    finally show ?thesis using 0 by simp
  next
    case (Suc i')
    have apart: "out + BYTES_PER_CHUNK + BYTES_PER_CHUNK * unat (blocks - 1)
          \<le> inp + 2 * BYTES_PER_CHUNK
        \<or> inp + 2 * BYTES_PER_CHUNK + 2 * BYTES_PER_CHUNK * unat (blocks - 1)
          \<le> out + BYTES_PER_CHUNK"
      using "1.prems"(1) pos pred by (cases "unat blocks") (auto simp: BYTES_PER_CHUNK_def)
    have i': "i' < unat (blocks - 1)"
      using "1.prems"(2) Suc pred by simp
    have untouched: "map ?m' [?lo i' ..< ?lo i' + 2 * BYTES_PER_CHUNK]
        = map m [?lo i' ..< ?lo i' + 2 * BYTES_PER_CHUNK]"
    proof (rule map_cong [OF refl])
      fix a
      assume "a \<in> set [?lo i' ..< ?lo i' + 2 * BYTES_PER_CHUNK]"
      then have a: "inp + 2 * BYTES_PER_CHUNK \<le> a"
          "a < inp + 2 * BYTES_PER_CHUNK * unat blocks"
        using "1.prems"(2) Suc by (auto simp: BYTES_PER_CHUNK_def)
      have "a < out \<or> out + BYTES_PER_CHUNK \<le> a"
        using "1.prems"(1) a pos by (auto simp: BYTES_PER_CHUNK_def)
      then show "?m' a = m a" by (rule sha256_1_avx_outside)
    qed
    have "sha256_sse H m out inp blocks (out + i * BYTES_PER_CHUNK + j)
        = sha256_sse H ?m' (out + BYTES_PER_CHUNK) (inp + 2 * BYTES_PER_CHUNK) (blocks - 1)
            (out + BYTES_PER_CHUNK + i' * BYTES_PER_CHUNK + j)"
      unfolding unroll using Suc by (simp add: algebra_simps)
    also have "\<dots> = H (map ?m' [?lo i' ..< ?lo i' + 2 * BYTES_PER_CHUNK]) j"
      using "1.IH" [OF nz apart i' "1.prems"(3)] .
    also have "\<dots> = H (map m [inp + i * (2 * BYTES_PER_CHUNK) ..<
        inp + i * (2 * BYTES_PER_CHUNK) + 2 * BYTES_PER_CHUNK]) j"
      unfolding untouched using Suc by (simp add: algebra_simps)
    finally show ?thesis .
  qed
qed

text \<open>One call on \<open>blocks\<close> blocks is the single-block calls one after the other.\<close>

lemma sha256_sse_sequential:
  "sha256_sse H m out inp blocks =
     fold (\<lambda>i m'. sha256_sse H m' (out + i * BYTES_PER_CHUNK) (inp + i * (2 * BYTES_PER_CHUNK)) 1)
       [0 ..< unat blocks] m"
proof (induction H m out inp blocks rule: sha256_sse.induct)
  case (1 H m out inp blocks)
  show ?case
  proof (cases "blocks = 0")
    case True
    then show ?thesis by (simp add: sha256_sse_no_blocks)
  next
    case False
    have pos: "0 < unat blocks" using False by (rule unat_pos)
    have pred: "unat (blocks - 1) = unat blocks - 1" using False by (rule unat_pred)
    have upt: "[0 ..< unat blocks] = 0 # map Suc [0 ..< unat (blocks - 1)]"
      using pos pred by (simp add: upt_conv_Cons map_Suc_upt del: upt_Suc)
    let ?m' = "sha256_1_avx H m out inp"
    let ?f = "\<lambda>i m'. sha256_sse H m' (out + i * BYTES_PER_CHUNK)
        (inp + i * (2 * BYTES_PER_CHUNK)) 1"
    have "sha256_sse H m out inp blocks =
        sha256_sse H ?m' (out + BYTES_PER_CHUNK) (inp + 2 * BYTES_PER_CHUNK) (blocks - 1)"
      using False by (rule sha256_sse_unroll)
    also have "\<dots> = fold (\<lambda>i m'. sha256_sse H m' (out + BYTES_PER_CHUNK + i * BYTES_PER_CHUNK)
        (inp + 2 * BYTES_PER_CHUNK + i * (2 * BYTES_PER_CHUNK)) 1) [0 ..< unat (blocks - 1)] ?m'"
      using "1.IH" [OF False] .
    also have "\<dots> = fold ?f (map Suc [0 ..< unat (blocks - 1)]) ?m'"
      by (simp add: fold_map comp_def add.assoc add.commute add.left_commute)
    also have "\<dots> = fold ?f (0 # map Suc [0 ..< unat (blocks - 1)]) m"
      by (simp add: sha256_sse_single)
    finally show ?thesis unfolding upt .
  qed
qed

text \<open>
  C5. Batch independence. One call on \<open>blocks\<close> blocks is the single-block calls at
  input offsets \<open>i * 64\<close> and output offsets \<open>i * 32\<close>, run in order. When the output
  region does not overlap the input region, the 32 bytes it leaves at output offset
  \<open>i * 32\<close> are the bytes that a single-block call on the pair at input offset
  \<open>i * 64\<close> alone writes (to any output address \<open>out1\<close>): the digest of that pair, whatever
  the other blocks hold.
\<close>

theorem sha256_sse_batch_independence:
  assumes "out + 32 * unat blocks \<le> inp \<or> inp + 64 * unat blocks \<le> out"
    and "i < unat blocks" and "j < 32"
  shows "sha256_sse H m out inp blocks (out + i * 32 + j)
           = sha256_sse H m out1 (inp + i * 64) 1 (out1 + j) \<and>
         sha256_sse H m out inp blocks (out + i * 32 + j)
           = H (map m [inp + i * 64 ..< inp + i * 64 + 64]) j \<and>
         sha256_sse H m out inp blocks
           = fold (\<lambda>k m'. sha256_sse H m' (out + k * 32) (inp + k * 64) 1)
               [0 ..< unat blocks] m"
proof -
  have batch: "sha256_sse H m out inp blocks (out + i * 32 + j)
      = H (map m [inp + i * 64 ..< inp + i * 64 + 64]) j"
    using sha256_sse_block [of out blocks inp i j H m] assms
    by (simp add: BYTES_PER_CHUNK_def)
  have alone: "sha256_sse H m out1 (inp + i * 64) 1 (out1 + j)
      = H (map m [inp + i * 64 ..< inp + i * 64 + 64]) j"
    using sha256_1_avx_inside [of j H m out1 "inp + i * 64"] assms(3)
    by (simp add: sha256_sse_single BYTES_PER_CHUNK_def)
  have seq: "sha256_sse H m out inp blocks
      = fold (\<lambda>k m'. sha256_sse H m' (out + k * 32) (inp + k * 64) 1) [0 ..< unat blocks] m"
    using sha256_sse_sequential [of H m out inp blocks] by (simp add: BYTES_PER_CHUNK_def)
  from batch alone seq show ?thesis by simp
qed

theorem sha256_sse_batch_independence_witness:
  "((1000 :: nat) + 32 * unat (3 :: 64 word) \<le> 0 \<or> (0 :: nat) + 64 * unat (3 :: 64 word) \<le> 1000) \<and>
   (2 :: nat) < unat (3 :: 64 word) \<and> (5 :: nat) < 32 \<and>
   sha256_sse H_sum mem_ramp 1000 0 3 (1000 + 2 * 32 + 5)
     = sha256_sse H_sum mem_ramp 2000 (0 + 2 * 64) 1 (2000 + 5) \<and>
   sha256_sse H_sum mem_ramp 1000 0 3 (1000 + 2 * 32 + 5)
     = H_sum (map mem_ramp [0 + 2 * 64 ..< 0 + 2 * 64 + 64]) 5"
proof -
  have hyps: "(1000 :: nat) + 32 * unat (3 :: 64 word) \<le> 0 \<or> (0 :: nat) + 64 * unat (3 :: 64 word) \<le> 1000"
    "(2 :: nat) < unat (3 :: 64 word)" "(5 :: nat) < 32"
    by simp_all
  from sha256_sse_batch_independence [OF hyps, of H_sum mem_ramp 2000] hyps
  show ?thesis by blast
qed

text \<open>
  The loop of \<open>sha256_sse\<close> meets the contract that the spec gives every backend, on
  buffers that do not overlap.
\<close>

lemma sha256_sse_meets_contract:
  assumes apart: "out + BYTES_PER_CHUNK * unat blocks \<le> inp
      \<or> inp + 2 * BYTES_PER_CHUNK * unat blocks \<le> out"
  shows "sha256_sse H m out inp blocks = hash_pairs_contract H m out inp blocks"
proof (rule ext)
  fix a
  show "sha256_sse H m out inp blocks a = hash_pairs_contract H m out inp blocks a"
  proof (cases "out \<le> a \<and> a < out + BYTES_PER_CHUNK * unat blocks")
    case True
    define i where "i = (a - out) div BYTES_PER_CHUNK"
    define j where "j = (a - out) mod BYTES_PER_CHUNK"
    have j: "j < BYTES_PER_CHUNK"
      by (simp add: j_def BYTES_PER_CHUNK_def)
    have "a - out < unat blocks * BYTES_PER_CHUNK"
      using True by (auto simp: mult.commute)
    then have i: "i < unat blocks"
      unfolding i_def by (rule less_mult_imp_div_less)
    have a: "a = out + i * BYTES_PER_CHUNK + j"
      using True by (simp add: i_def j_def)
    have "sha256_sse H m out inp blocks (out + i * BYTES_PER_CHUNK + j)
        = H (map m [inp + i * (2 * BYTES_PER_CHUNK) ..<
                    inp + i * (2 * BYTES_PER_CHUNK) + 2 * BYTES_PER_CHUNK]) j"
      using apart i j by (rule sha256_sse_block)
    also have "\<dots> = hash_pairs_contract H m out inp blocks a"
      using True by (simp add: hash_pairs_contract_def i_def j_def)
    finally show ?thesis by (simp add: a [symmetric])
  next
    case False
    then have "a < out \<or> out + BYTES_PER_CHUNK * unat blocks \<le> a" by auto
    then have "sha256_sse H m out inp blocks a = m a" by (rule sha256_sse_frame)
    moreover have "hash_pairs_contract H m out inp blocks a = m a"
      using False by (auto simp: hash_pairs_contract_def)
    ultimately show ?thesis by simp
  qed
qed

lemma hash_pairs_contract_no_blocks: "hash_pairs_contract H m out inp 0 = m"
  by (rule ext) (auto simp: hash_pairs_contract_def)

lemma call_SHA256_hasher_no_blocks:
  "call_SHA256_hasher H (hasher_h_kernels H) p m out inp 0 = m"
  by (cases p)
    (simp_all add: call_SHA256_hasher_def hasher_h_kernels_def
      hash_pairs_contract_no_blocks sha256_sse_no_blocks)

text \<open>
  C6. A block count of 0 is a no-op. In \<open>sha256_sse\<close> the loop body is never entered:
  the function returns and the store, so every byte of the output buffer, is as it
  was. The same holds for the pair-hashing operation in general: a call through the
  bound pointer with 0 blocks, whichever of the four kernels the pointer is bound to
  and however the \<open>Hasher\<close> was constructed, returns and leaves the store and the
  object as they were. For the three external kernels this rests on the contract of
  the spec.
\<close>

theorem hash_pairs_zero_blocks:
  "sha256_sse H m out inp 0 = m \<and>
   (\<forall>a. sha256_sse H m out inp 0 a = m a) \<and>
   call_SHA256_hasher H K ptr_sha256_sse m out inp 0 = m \<and>
   call_SHA256_hasher H (hasher_h_kernels H) p m out inp 0 = m \<and>
   step H (hasher_h_kernels H) \<lparr>object = unbound\<lparr>hash_64b_blocks := Some p\<rparr>, memory = m\<rparr>
       (Call_hash out inp 0)
     = Some \<lparr>object = unbound\<lparr>hash_64b_blocks := Some p\<rparr>, memory = m\<rparr> \<and>
   step H (hasher_h_kernels H) \<lparr>object = Hasher E hw r0 impl, memory = m\<rparr>
       (Call_hash out inp 0)
     = Some \<lparr>object = Hasher E hw r0 impl, memory = m\<rparr>"
proof -
  have own: "sha256_sse H m out inp 0 = m"
    by (rule sha256_sse_no_blocks)
  have through: "call_SHA256_hasher H K ptr_sha256_sse m out inp 0 = m"
    by (simp add: call_SHA256_hasher_def sha256_sse_no_blocks)
  have bound: "step H (hasher_h_kernels H) \<lparr>object = h, memory = m\<rparr> (Call_hash out inp 0)
      = Some \<lparr>object = h, memory = m\<rparr>" if "hash_64b_blocks h = Some q" for h q
    using that by (simp add: call_SHA256_hasher_no_blocks)
  obtain q where q: "hash_64b_blocks (Hasher E hw r0 impl) = Some q"
    using Hasher_binds by blast
  have any: "step H (hasher_h_kernels H)
        \<lparr>object = unbound\<lparr>hash_64b_blocks := Some p\<rparr>, memory = m\<rparr> (Call_hash out inp 0)
      = Some \<lparr>object = unbound\<lparr>hash_64b_blocks := Some p\<rparr>, memory = m\<rparr>"
    by (rule bound [of _ p]) simp
  from own through call_SHA256_hasher_no_blocks [of H p m out inp] any bound [OF q]
  show ?thesis by simp
qed

section \<open>The lifetime of a \<open>Hasher\<close>\<close>

lemma step_keeps_object:
  "hash_64b_blocks (object w) = Some p \<Longrightarrow>
   \<exists>w'. step H K w c = Some w' \<and> object w' = object w"
  by (cases c) simp_all

lemma run_keeps_object:
  "hash_64b_blocks (object w) = Some p \<Longrightarrow>
   \<exists>w'. run H K w cs = Some w' \<and> object w' = object w"
proof (induction cs arbitrary: w)
  case Nil
  then show ?case by simp
next
  case (Cons c cs)
  from step_keeps_object [OF Cons.prems, of H K c] obtain w1 where
    s: "step H K w c = Some w1" and o: "object w1 = object w" by blast
  from Cons.prems o have "hash_64b_blocks (object w1) = Some p" by simp
  from Cons.IH [OF this] obtain w' where
    "run H K w1 cs = Some w'" "object w' = object w1" by blast
  with s o show ?case by simp
qed

text \<open>
  C7. A constructed \<open>Hasher\<close> is bound, and stays bound to the same kernel: every
  sequence of operations on it runs to the end (no call goes through an unbound
  pointer) and leaves the object, with its \<open>_hash_64b_blocks\<close>, as the constructor made it.
\<close>

theorem Hasher_binding_is_fixed:
  "\<exists>p w'. hash_64b_blocks (Hasher E hw r0 impl) = Some p \<and>
     run H K \<lparr>object = Hasher E hw r0 impl, memory = m\<rparr> cs = Some w' \<and>
     object w' = Hasher E hw r0 impl \<and>
     hash_64b_blocks (object w') = Some p"
proof -
  obtain p where p: "hash_64b_blocks (Hasher E hw r0 impl) = Some p"
    using Hasher_binds by blast
  then have "hash_64b_blocks (object \<lparr>object = Hasher E hw r0 impl, memory = m\<rparr>) = Some p"
    by simp
  from run_keeps_object [OF this, of H K cs] obtain w' where
    "run H K \<lparr>object = Hasher E hw r0 impl, memory = m\<rparr> cs = Some w'"
    "object w' = Hasher E hw r0 impl" by auto
  with p show ?thesis by auto
qed


end
